theory Spec2Isabelle
  imports Complex_Main
begin

section \<open>Python values\<close>

text \<open>
  The handlers of \<^verbatim>\<open>app.py\<close> work on values decoded from JSON: the request body and the
  two upstream replies. A Python \<^verbatim>\<open>str\<close> is the list of its code points, which may include
  surrogates (\<^verbatim>\<open>json.loads\<close> decodes \<^verbatim>\<open>"\\ud800"\<close> to one); \<open>str\<close> gives the value of a string
  literal of the code. A \<^verbatim>\<open>dict\<close> is an association list in insertion order, read with
  \<^const>\<open>map_of\<close> (the keys of a decoded object are distinct). A \<^verbatim>\<open>float\<close> is kept as the
  number it denotes; the only thing the code asks of a float is whether it is zero.
\<close>

type_synonym pystr = "nat list"

definition str :: "string \<Rightarrow> pystr" where
  "str s = map of_char s"

datatype pyfloat = Finite rat | PosInf | NegInf | NaN

datatype pyval =
    PNone
  | PBool bool
  | PInt int
  | PFloat pyfloat
  | PStr pystr
  | PList "pyval list"
  | PDict "(pystr \<times> pyval) list"

text \<open>Truth value testing, as \<^verbatim>\<open>if x\<close>, \<^verbatim>\<open>not x\<close> and \<^verbatim>\<open>x or y\<close> apply it.\<close>

fun truthy :: "pyval \<Rightarrow> bool" where
  "truthy PNone = False"
| "truthy (PBool b) = b"
| "truthy (PInt i) = (i \<noteq> 0)"
| "truthy (PFloat f) = (f \<noteq> Finite 0)"
| "truthy (PStr s) = (s \<noteq> [])"
| "truthy (PList xs) = (xs \<noteq> [])"
| "truthy (PDict kvs) = (kvs \<noteq> [])"

definition py_or :: "pyval \<Rightarrow> pyval \<Rightarrow> pyval" where
  "py_or a b = (if truthy a then a else b)"

fun type_name :: "pyval \<Rightarrow> string" where
  "type_name PNone = ''NoneType''"
| "type_name (PBool _) = ''bool''"
| "type_name (PInt _) = ''int''"
| "type_name (PFloat _) = ''float''"
| "type_name (PStr _) = ''str''"
| "type_name (PList _) = ''list''"
| "type_name (PDict _) = ''dict''"

subsection \<open>Exceptions\<close>

text \<open>
  An exception is its class and its message (\<^verbatim>\<open>str(e)\<close>). \<^verbatim>\<open>HTTPError\<close>,
  \<^verbatim>\<open>ConnectionError\<close>, \<^verbatim>\<open>Timeout\<close> and \<^verbatim>\<open>JSONDecodeError\<close> are the classes of
  \<^verbatim>\<open>requests.exceptions\<close>: siblings below \<^verbatim>\<open>RequestException\<close>, none a subclass of
  another. \<^verbatim>\<open>requests.get\<close> raises \<^verbatim>\<open>ConnectionError\<close> or \<^verbatim>\<open>Timeout\<close> when the transport
  fails, \<^verbatim>\<open>r.json()\<close> raises \<^verbatim>\<open>JSONDecodeError\<close>; \<^verbatim>\<open>HTTPError\<close> is what
  \<^verbatim>\<open>raise_for_status\<close> raises. \<^verbatim>\<open>AttributeError\<close>, \<^verbatim>\<open>TypeError\<close> and
  \<^verbatim>\<open>UnicodeEncodeError\<close> are the built-in exceptions the handlers' own steps raise.
\<close>

datatype exc_class =
    HTTPError
  | ConnectionError
  | Timeout
  | JSONDecodeError
  | AttributeError
  | TypeError
  | UnicodeEncodeError
  | OtherException

datatype py_exc = Exc exc_class pystr

definition squote :: "string \<Rightarrow> string" where
  "squote s = CHR 0x27 # s @ [CHR 0x27]"

definition attribute_error :: "pyval \<Rightarrow> string \<Rightarrow> py_exc" where
  "attribute_error v a =
     Exc AttributeError (str (squote (type_name v) @ '' object has no attribute '' @ squote a))"

definition not_iterable :: "pyval \<Rightarrow> py_exc" where
  "not_iterable v = Exc TypeError (str (squote (type_name v) @ '' object is not iterable''))"

text \<open>Sequencing of steps that may raise: the first exception ends the computation.\<close>

definition then_do :: "py_exc + 'a \<Rightarrow> ('a \<Rightarrow> py_exc + 'b) \<Rightarrow> py_exc + 'b" where
  "then_do r f = (case r of Inl e \<Rightarrow> Inl e | Inr v \<Rightarrow> f v)"

fun each :: "('a \<Rightarrow> py_exc + 'b) \<Rightarrow> 'a list \<Rightarrow> py_exc + 'b list" where
  "each f [] = Inr []"
| "each f (x # xs) =
     (case f x of
        Inl e \<Rightarrow> Inl e
      | Inr y \<Rightarrow> (case each f xs of Inl e \<Rightarrow> Inl e | Inr ys \<Rightarrow> Inr (y # ys)))"

subsection \<open>Attribute access on decoded values\<close>

text \<open>
  \<^verbatim>\<open>obj.get(key, default)\<close>: only a \<^verbatim>\<open>dict\<close> has the method; on any other decoded value
  the attribute lookup raises \<^verbatim>\<open>AttributeError\<close>.
\<close>

fun py_get :: "pyval \<Rightarrow> string \<Rightarrow> pyval \<Rightarrow> py_exc + pyval" where
  "py_get (PDict kvs) k d = Inr (case map_of kvs (str k) of None \<Rightarrow> d | Some v \<Rightarrow> v)"
| "py_get v k d = Inl (attribute_error v ''get'')"

text \<open>
  The code points \<^verbatim>\<open>str.isspace\<close> holds of, and \<^verbatim>\<open>s.strip()\<close>; only a \<^verbatim>\<open>str\<close> has the
  method.
\<close>

definition py_isspace :: "nat \<Rightarrow> bool" where
  "py_isspace c =
     (c \<in> {9, 10, 11, 12, 13, 28, 29, 30, 31, 32, 133, 160, 5760, 8192, 8193, 8194, 8195, 8196,
           8197, 8198, 8199, 8200, 8201, 8202, 8232, 8233, 8239, 8287, 12288})"

definition strip :: "pystr \<Rightarrow> pystr" where
  "strip s = rev (dropWhile py_isspace (rev (dropWhile py_isspace s)))"

fun py_strip :: "pyval \<Rightarrow> py_exc + pystr" where
  "py_strip (PStr s) = Inr (strip s)"
| "py_strip v = Inl (attribute_error v ''strip'')"

text \<open>Iteration, as a \<^verbatim>\<open>for\<close> clause does it.\<close>

fun py_iter :: "pyval \<Rightarrow> py_exc + pyval list" where
  "py_iter (PList xs) = Inr xs"
| "py_iter (PStr s) = Inr (map (\<lambda>c. PStr [c]) s)"
| "py_iter (PDict kvs) = Inr (map (\<lambda>kv. PStr (fst kv)) kvs)"
| "py_iter v = Inl (not_iterable v)"

section \<open>The HTTP boundary\<close>

text \<open>
  What \<^verbatim>\<open>request.get_json(silent=True)\<close> sees: no body, a body that is not JSON (or not
  declared as JSON), or a decoded document. With \<^verbatim>\<open>silent=True\<close> the first two give
  \<^verbatim>\<open>None\<close> instead of an error.
\<close>

datatype raw_body = NoBody | NotJson | Json pyval

fun get_json_silent :: "raw_body \<Rightarrow> pyval" where
  "get_json_silent NoBody = PNone"
| "get_json_silent NotJson = PNone"
| "get_json_silent (Json v) = v"

text \<open>
  A response body is a JSON document (\<^verbatim>\<open>jsonify\<close>) or a CSV document, given by the rows
  handed to \<^verbatim>\<open>csv.writer\<close>, one list of cells for each \<^verbatim>\<open>writerow\<close>, in the order written.
\<close>

datatype payload = JsonDoc pyval | CsvDoc "pyval list list"

record http_response =
  status :: nat
  headers :: "(string \<times> string) list"
  payload :: payload

definition jsonify :: "nat \<Rightarrow> pyval \<Rightarrow> http_response" where
  "jsonify code doc =
     \<lparr>status = code, headers = [(''Content-Type'', ''application/json'')], payload = JsonDoc doc\<rparr>"

definition error_body :: "pystr \<Rightarrow> pyval" where
  "error_body msg = PDict [(str ''error'', PStr msg)]"

section \<open>CSV export\<close>

definition csv_headers :: "pyval list" where
  "csv_headers =
     [PStr (str ''Name''), PStr (str ''Address''), PStr (str ''Rating''), PStr (str ''Review Count''), PStr (str ''Phone''),
      PStr (str ''Website''), PStr (str ''Place ID''), PStr (str ''Latitude''), PStr (str ''Longitude'')]"

definition lead_keys :: "string list" where
  "lead_keys =
     [''name'', ''address'', ''rating'', ''reviewCount'', ''phone'', ''website'', ''placeId'',
      ''lat'', ''lng'']"

text \<open>One cell: \<^verbatim>\<open>l.get(key, "") or ""\<close>.\<close>

definition cell :: "pyval \<Rightarrow> string \<Rightarrow> py_exc + pyval" where
  "cell l k = then_do (py_get l k (PStr [])) (\<lambda>v. Inr (py_or v (PStr [])))"

text \<open>The list literal passed to \<^verbatim>\<open>writer.writerow\<close>, its nine elements evaluated in order.\<close>

definition lead_row :: "pyval \<Rightarrow> py_exc + pyval list" where
  "lead_row l = each (cell l) lead_keys"

definition csv_response :: "pyval list list \<Rightarrow> http_response" where
  "csv_response rows =
     \<lparr>status = 200,
      headers = [(''Content-Type'', ''text/csv; charset=utf-8''),
                 (''Content-Disposition'', ''attachment; filename=\"leads.csv\"'')],
      payload = CsvDoc rows\<rparr>"

text \<open>
  \<^verbatim>\<open>csv_bytes = buf.getvalue().encode("utf-8")\<close>. The text in the buffer is what
  \<^verbatim>\<open>csv.writer\<close> wrote for the rows: a \<^verbatim>\<open>str\<close> cell with its own code points (quoted where
  the dialect asks for it), \<^verbatim>\<open>None\<close> as nothing, and any other cell through \<^verbatim>\<open>str()\<close>, which
  gives ASCII digits and letters for a number or a boolean and escapes every surrogate
  inside a list or an object. So the text holds a surrogate exactly when a \<^verbatim>\<open>str\<close> cell
  does, and then the strict UTF-8 codec raises \<^verbatim>\<open>UnicodeEncodeError\<close>. Its message also
  names the offending characters and their position in the text; nothing catches the
  exception or reads the message, and the model keeps the codec's reason.
\<close>

definition is_surrogate :: "nat \<Rightarrow> bool" where
  "is_surrogate c = (55296 \<le> c \<and> c \<le> 57343)"

fun cell_encodable :: "pyval \<Rightarrow> bool" where
  "cell_encodable (PStr s) = (\<not> list_ex is_surrogate s)"
| "cell_encodable v = True"

definition encode_utf8 :: "pyval list list \<Rightarrow> py_exc + pyval list list" where
  "encode_utf8 rows =
     (if list_all (list_all cell_encodable) rows then Inr rows
      else Inl (Exc UnicodeEncodeError (str ''surrogates not allowed'')))"

text \<open>
  The handler of \<^verbatim>\<open>POST /api/export\<close>. \<^verbatim>\<open>Inl\<close> is an exception that leaves the handler:
  nothing in it is caught.
\<close>

definition api_export_csv :: "raw_body \<Rightarrow> py_exc + http_response" where
  "api_export_csv rb =
     (let data = py_or (get_json_silent rb) (PDict []) in
      case py_get data ''leads'' PNone of
        Inl e \<Rightarrow> Inl e
      | Inr leads \<Rightarrow>
          (case leads of
             PList ls \<Rightarrow>
               (case each lead_row ls of
                  Inl e \<Rightarrow> Inl e
                | Inr rows \<Rightarrow>
                    (case encode_utf8 (csv_headers # rows) of
                       Inl e \<Rightarrow> Inl e
                     | Inr doc \<Rightarrow> Inr (csv_response doc)))
           | _ \<Rightarrow> Inr (jsonify 400 (error_body (str ''No leads provided'')))))"

section \<open>Search\<close>

subsection \<open>Outbound calls\<close>

text \<open>
  An outbound call is \<^verbatim>\<open>requests.get(url, params=params, timeout=30)\<close> followed by
  \<^verbatim>\<open>r.json()\<close>. The handler keeps no state of its own; the state threaded through the
  model is the list of the calls made so far, each with the arguments the code passed
  to \<^verbatim>\<open>requests.get\<close>. The upstream service is a parameter: its
  answer to a call may depend on the call and on how many calls came before it, and is
  either the exception raised by \<^verbatim>\<open>requests.get\<close> or \<^verbatim>\<open>r.json()\<close>, or the decoded reply.
  The status code of the reply is never looked at by the code, so it is not part of the
  answer. \<^verbatim>\<open>time.sleep(0.08)\<close> between details calls has no effect on any value and is
  left out.
\<close>

datatype call = Get string "(string \<times> pyval) list"

type_synonym upstream = "nat \<Rightarrow> call \<Rightarrow> py_exc + pyval"

definition requests_get_json ::
    "upstream \<Rightarrow> call \<Rightarrow> call list \<Rightarrow> (py_exc + pyval) \<times> call list" where
  "requests_get_json up c cs = (up (length cs) c, cs @ [c])"

definition textsearch_url :: string where
  "textsearch_url = ''https://maps.googleapis.com/maps/api/place/textsearch/json''"

definition details_url :: string where
  "details_url = ''https://maps.googleapis.com/maps/api/place/details/json''"

subsection \<open>Text search\<close>

text \<open>
  The parameters of the text search: \<^verbatim>\<open>key\<close> always, then \<^verbatim>\<open>pagetoken\<close> if the token is
  truthy and \<^verbatim>\<open>query\<close> otherwise. \<^verbatim>\<open>API_KEY\<close> is what \<^verbatim>\<open>os.getenv\<close> returned: a string
  or \<^verbatim>\<open>None\<close>.
\<close>

definition search_params ::
    "pyval \<Rightarrow> pystr \<Rightarrow> pystr option \<Rightarrow> (string \<times> pyval) list" where
  "search_params api_key query pagetoken =
     (case pagetoken of
        Some t \<Rightarrow>
          if t \<noteq> [] then [(''key'', api_key), (''pagetoken'', PStr t)]
          else [(''key'', api_key), (''query'', PStr query)]
      | None \<Rightarrow> [(''key'', api_key), (''query'', PStr query)])"

text \<open>
  \<^verbatim>\<open>[it.get("place_id") for it in ... if it.get("place_id")]\<close>: the condition is evaluated
  first and raises on an item that is not a mapping.
\<close>

fun place_ids_of :: "pyval list \<Rightarrow> py_exc + pyval list" where
  "place_ids_of [] = Inr []"
| "place_ids_of (it # its) =
     (case py_get it ''place_id'' PNone of
        Inl e \<Rightarrow> Inl e
      | Inr v \<Rightarrow>
          (case place_ids_of its of
             Inl e \<Rightarrow> Inl e
           | Inr vs \<Rightarrow> Inr (if truthy v then v # vs else vs)))"

definition read_search_reply :: "pyval \<Rightarrow> py_exc + (pyval list \<times> pyval)" where
  "read_search_reply data =
     then_do (py_get data ''results'' (PList [])) (\<lambda>results.
     then_do (py_iter results) (\<lambda>items.
     then_do (place_ids_of items) (\<lambda>place_ids.
     then_do (py_get data ''next_page_token'' PNone) (\<lambda>next_token.
     Inr (place_ids, next_token)))))"

definition google_text_search_once ::
    "pyval \<Rightarrow> upstream \<Rightarrow> pystr \<Rightarrow> pystr option \<Rightarrow> call list
      \<Rightarrow> (py_exc + (pyval list \<times> pyval)) \<times> call list" where
  "google_text_search_once api_key up query pagetoken cs =
     (case requests_get_json up (Get textsearch_url (search_params api_key query pagetoken)) cs of
        (r, cs') \<Rightarrow> (then_do r read_search_reply, cs'))"

subsection \<open>Place details\<close>

record lead =
  name :: pyval
  address :: pyval
  rating :: pyval
  reviewCount :: pyval
  phone :: pyval
  website :: pyval
  placeId :: pyval
  lat :: pyval
  lng :: pyval

definition details_fields :: string where
  "details_fields =
     ''name,formatted_address,international_phone_number,website,rating,user_ratings_total,geometry,place_id''"

definition details_params :: "pyval \<Rightarrow> pyval \<Rightarrow> (string \<times> pyval) list" where
  "details_params api_key place_id =
     [(''place_id'', place_id), (''fields'', PStr (str details_fields)), (''key'', api_key)]"

text \<open>\<^verbatim>\<open>(p.get("geometry") or {}).get("location", {}).get(k)\<close>\<close>

definition location_of :: "pyval \<Rightarrow> string \<Rightarrow> py_exc + pyval" where
  "location_of p k =
     then_do (py_get p ''geometry'' PNone) (\<lambda>g.
     then_do (py_get (py_or g (PDict [])) ''location'' (PDict [])) (\<lambda>loc.
     py_get loc k PNone))"

text \<open>The keyword arguments of \<^verbatim>\<open>Lead(...)\<close>, evaluated in the order written.\<close>

definition make_lead :: "pyval \<Rightarrow> py_exc + lead" where
  "make_lead p =
     then_do (py_get p ''name'' (PStr [])) (\<lambda>n.
     then_do (py_get p ''formatted_address'' (PStr [])) (\<lambda>a.
     then_do (py_get p ''rating'' PNone) (\<lambda>r.
     then_do (py_get p ''user_ratings_total'' PNone) (\<lambda>c.
     then_do (py_get p ''international_phone_number'' PNone) (\<lambda>ph.
     then_do (py_get p ''website'' PNone) (\<lambda>w.
     then_do (py_get p ''place_id'' (PStr [])) (\<lambda>i.
     then_do (location_of p ''lat'') (\<lambda>la.
     then_do (location_of p ''lng'') (\<lambda>ln.
     Inr \<lparr>name = n, address = a, rating = r, reviewCount = c, phone = ph, website = w,
          placeId = i, lat = la, lng = ln\<rparr>)))))))))"

definition read_details_reply :: "pyval \<Rightarrow> py_exc + lead option" where
  "read_details_reply dj =
     then_do (py_get dj ''result'' PNone) (\<lambda>p.
     if \<not> truthy p then Inr None
     else then_do (make_lead p) (\<lambda>l. Inr (Some l)))"

definition google_place_details ::
    "pyval \<Rightarrow> upstream \<Rightarrow> pyval \<Rightarrow> call list \<Rightarrow> (py_exc + lead option) \<times> call list" where
  "google_place_details api_key up place_id cs =
     (case requests_get_json up (Get details_url (details_params api_key place_id)) cs of
        (r, cs') \<Rightarrow> (then_do r read_details_reply, cs'))"

subsection \<open>The handler of \<^verbatim>\<open>POST /api/search\<close>\<close>

text \<open>\<^verbatim>\<open>asdict(l)\<close>: the fields in declaration order.\<close>

definition asdict :: "lead \<Rightarrow> pyval" where
  "asdict l =
     PDict [(str ''name'', name l), (str ''address'', address l), (str ''rating'', rating l),
            (str ''reviewCount'', reviewCount l), (str ''phone'', phone l), (str ''website'', website l),
            (str ''placeId'', placeId l), (str ''lat'', lat l), (str ''lng'', lng l)]"

text \<open>
  The \<^verbatim>\<open>for pid in place_ids\<close> loop. A \<^verbatim>\<open>Lead\<close> instance is always truthy, so
  \<^verbatim>\<open>if lead\<close> only tests for \<^verbatim>\<open>None\<close>.
\<close>

fun details_loop ::
    "pyval \<Rightarrow> upstream \<Rightarrow> pyval list \<Rightarrow> lead list \<Rightarrow> call list
      \<Rightarrow> (py_exc + lead list) \<times> call list" where
  "details_loop api_key up [] leads cs = (Inr leads, cs)"
| "details_loop api_key up (pid # pids) leads cs =
     (case google_place_details api_key up pid cs of
        (Inl e, cs') \<Rightarrow> (Inl e, cs')
      | (Inr None, cs') \<Rightarrow> details_loop api_key up pids leads cs'
      | (Inr (Some l), cs') \<Rightarrow> details_loop api_key up pids (leads @ [l]) cs')"

text \<open>The body of the \<^verbatim>\<open>try\<close> block.\<close>

definition search_body ::
    "pyval \<Rightarrow> upstream \<Rightarrow> pystr \<Rightarrow> pystr option \<Rightarrow> (py_exc + http_response) \<times> call list" where
  "search_body api_key up query page_token =
     (case google_text_search_once api_key up query page_token [] of
        (Inl e, cs) \<Rightarrow> (Inl e, cs)
      | (Inr (place_ids, next_token), cs) \<Rightarrow>
          (case details_loop api_key up place_ids [] cs of
             (Inl e, cs') \<Rightarrow> (Inl e, cs')
           | (Inr leads, cs') \<Rightarrow>
               (Inr (jsonify 200
                  (PDict [(str ''leads'', PList (map asdict leads)),
                          (str ''nextPageToken'', py_or next_token (PStr []))])), cs')))"

text \<open>
  The two \<^verbatim>\<open>except\<close> clauses: \<^verbatim>\<open>requests.HTTPError\<close> first, then \<^verbatim>\<open>Exception\<close>.
\<close>

fun on_exception :: "py_exc \<Rightarrow> http_response" where
  "on_exception (Exc c msg) =
     (if c = HTTPError then jsonify 502 (error_body (str ''HTTP error: '' @ msg))
      else jsonify 500 (error_body msg))"

text \<open>\<^verbatim>\<open>(data.get(k) or "").strip()\<close>\<close>

definition field_text :: "pyval \<Rightarrow> string \<Rightarrow> py_exc + pystr" where
  "field_text data k = then_do (py_get data k PNone) (\<lambda>v. py_strip (py_or v (PStr [])))"

text \<open>
  The reads of the request body that open the handler: \<^verbatim>\<open>category\<close>, \<^verbatim>\<open>location\<close> and
  \<^verbatim>\<open>page_token\<close>, the last one \<^verbatim>\<open>None\<close> when the trimmed text is empty.
\<close>

definition search_inputs :: "raw_body \<Rightarrow> py_exc + (pystr \<times> pystr \<times> pystr option)" where
  "search_inputs rb =
     (let data = py_or (get_json_silent rb) (PDict []) in
      then_do (field_text data ''category'') (\<lambda>category.
      then_do (field_text data ''location'') (\<lambda>location.
      then_do (field_text data ''pageToken'') (\<lambda>t.
      Inr (category, location, if t \<noteq> [] then Some t else None)))))"

text \<open>
  The handler returns the response, or the exception that leaves it (the reads of the
  request body are outside the \<^verbatim>\<open>try\<close> block), together with the outbound calls it made.
\<close>

definition api_search ::
    "pyval \<Rightarrow> upstream \<Rightarrow> raw_body \<Rightarrow> (py_exc + http_response) \<times> call list" where
  "api_search api_key up rb =
     (case search_inputs rb of
        Inl e \<Rightarrow> (Inl e, [])
      | Inr (category, location, page_token) \<Rightarrow>
          if (category = [] \<or> location = []) \<and> page_token = None
          then (Inr (jsonify 400 (error_body (str ''category and location are required''))), [])
          else
            (case search_body api_key up (category @ str '' in '' @ location) page_token of
               (Inl e, cs) \<Rightarrow> (Inr (on_exception e), cs)
             | (Inr resp, cs) \<Rightarrow> (Inr resp, cs)))"

section \<open>Notions used to state the properties\<close>

fun is_dict :: "pyval \<Rightarrow> bool" where
  "is_dict (PDict _) = True"
| "is_dict _ = False"

fun is_list :: "pyval \<Rightarrow> bool" where
  "is_list (PList _) = True"
| "is_list _ = False"

text \<open>
  A field of a request object, \<^verbatim>\<open>None\<close> when the key is missing, and the text a
  well-formed request gives in it: the string, or the empty text for a missing or null
  field. A field holding anything else has no text.
\<close>

definition field_of :: "(pystr \<times> pyval) list \<Rightarrow> string \<Rightarrow> pyval" where
  "field_of kvs k = (case map_of kvs (str k) of None \<Rightarrow> PNone | Some v \<Rightarrow> v)"

fun text_of :: "pyval \<Rightarrow> pystr option" where
  "text_of PNone = Some []"
| "text_of (PStr s) = Some s"
| "text_of _ = None"


text \<open>The calls the two upstream functions make.\<close>

definition search_call :: "pyval \<Rightarrow> pystr \<Rightarrow> pystr option \<Rightarrow> call" where
  "search_call api_key query pagetoken = Get textsearch_url (search_params api_key query pagetoken)"

definition details_call :: "pyval \<Rightarrow> pyval \<Rightarrow> call" where
  "details_call api_key place_id = Get details_url (details_params api_key place_id)"

fun to_textsearch :: "call \<Rightarrow> bool" where
  "to_textsearch (Get url ps) = (url = textsearch_url)"

text \<open>
  The outcome of the details lookup of an identifier when it is outbound call number
  \<open>n\<close>, and the lead it contributes: none when the lookup has no result.
\<close>

definition details_at :: "pyval \<Rightarrow> upstream \<Rightarrow> nat \<Rightarrow> pyval \<Rightarrow> py_exc + lead option" where
  "details_at api_key up n place_id = then_do (up n (details_call api_key place_id)) read_details_reply"


section \<open>Sample inputs\<close>

text \<open>A record with all nine fields populated, and the same record with no reviews yet.\<close>

definition record_full :: pyval where
  "record_full =
     PDict [(str ''name'', PStr (str ''Cafe A'')), (str ''address'', PStr (str ''1 Main St'')),
            (str ''rating'', PFloat (Finite (9 / 2))), (str ''reviewCount'', PInt 12),
            (str ''phone'', PStr (str ''+47 22 00 00 00'')), (str ''website'', PStr (str ''https://a.example'')),
            (str ''placeId'', PStr (str ''id1'')), (str ''lat'', PFloat (Finite (599 / 10))),
            (str ''lng'', PFloat (Finite (107 / 10)))]"

definition record_no_reviews :: pyval where
  "record_no_reviews =
     PDict [(str ''name'', PStr (str ''Cafe A'')), (str ''address'', PStr (str ''1 Main St'')),
            (str ''rating'', PFloat (Finite (9 / 2))), (str ''reviewCount'', PInt 0),
            (str ''phone'', PStr (str ''+47 22 00 00 00'')), (str ''website'', PStr (str ''https://a.example'')),
            (str ''placeId'', PStr (str ''id1'')), (str ''lat'', PFloat (Finite (599 / 10))),
            (str ''lng'', PFloat (Finite (107 / 10)))]"

text \<open>A record whose name is the lone surrogate \<^verbatim>\<open>"\\ud800"\<close>.\<close>

definition record_surrogate :: pyval where
  "record_surrogate = PDict [(str ''name'', PStr [55296])]"

definition export_request :: "pyval \<Rightarrow> raw_body" where
  "export_request leads = Json (PDict [(str ''leads'', leads)])"

text \<open>A fresh search for cafes in Oslo, and the continuation of a search.\<close>

definition cafe_fields :: "(pystr \<times> pyval) list" where
  "cafe_fields = [(str ''category'', PStr (str ''cafe'')), (str ''location'', PStr (str ''Oslo''))]"

definition next_page_fields :: "(pystr \<times> pyval) list" where
  "next_page_fields = [(str ''pageToken'', PStr (str ''tok2''))]"

text \<open>An upstream whose every call times out.\<close>

definition up_timeout :: upstream where
  "up_timeout n c = Inl (Exc Timeout (str ''Read timed out.''))"

text \<open>
  An upstream that answers the search with three identifiers and a next-page token,
  finds the first and the third place and has no result for the second.
\<close>

definition place_reply :: "string \<Rightarrow> pyval" where
  "place_reply i = PDict [(str ''result'', PDict [(str ''name'', PStr (str ''N'')), (str ''place_id'', PStr (str i))])]"

definition three_ids :: pyval where
  "three_ids =
     PDict [(str ''results'', PList [PDict [(str ''place_id'', PStr (str ''id1''))],
                                 PDict [(str ''place_id'', PStr (str ''id2''))],
                                 PDict [(str ''place_id'', PStr (str ''id3''))]]),
            (str ''next_page_token'', PStr (str ''tok2''))]"

definition up_second_missing :: upstream where
  "up_second_missing n c =
     (if n = 0 then Inr three_ids
      else if n = 1 then Inr (place_reply ''id1'')
      else if n = 2 then Inr (PDict [(str ''status'', PStr (str ''NOT_FOUND''))])
      else Inr (place_reply ''id3''))"

text \<open>The same upstream, but the connection drops at the third details call.\<close>

definition up_third_fails :: upstream where
  "up_third_fails n c =
     (if n = 3 then Inl (Exc ConnectionError (str ''Connection aborted.'')) else up_second_missing n c)"

definition lead_N :: "string \<Rightarrow> lead" where
  "lead_N i =
     \<lparr>name = PStr (str ''N''), address = PStr [], rating = PNone, reviewCount = PNone, phone = PNone,
      website = PNone, placeId = PStr (str i), lat = PNone, lng = PNone\<rparr>"

section \<open>Auxiliary facts\<close>

subsection \<open>String literals\<close>

lemma str_eq_iff [simp]: "str a = str b \<longleftrightarrow> a = b"
  unfolding str_def by (rule inj_map_eq_map) (simp add: inj_on_def)

lemma str_Nil [simp]: "str [] = []"
  by (simp add: str_def)

lemma str_eq_Nil [simp]: "str a = [] \<longleftrightarrow> a = []"
  by (simp add: str_def)

lemma str_append: "str (a @ b) = str a @ str b"
  by (simp add: str_def)

lemma str_not_surrogate [simp]: "\<not> list_ex is_surrogate (str s)"
proof -
  have lt: "(of_char c :: nat) < 256" for c :: char
    by (metis of_char_mod_256 mod_less_divisor zero_less_numeral)
  then have "\<not> is_surrogate (of_char c)" for c :: char
    using lt[of c] unfolding is_surrogate_def by linarith
  then show ?thesis
    by (simp add: str_def list_ex_iff)
qed

subsection \<open>Sequences of steps\<close>

lemma py_get_not_dict: "\<not> is_dict v \<Longrightarrow> py_get v k d = Inl (attribute_error v ''get'')"
  by (cases v) simp_all

lemma each_all_Inr:
  "(\<And>x. x \<in> set xs \<Longrightarrow> f x = Inr (g x)) \<Longrightarrow> each f xs = Inr (map g xs)"
  by (induction xs) simp_all

lemma each_first_Inl:
  "(\<And>y. y \<in> set ys \<Longrightarrow> \<exists>r. f y = Inr r) \<Longrightarrow> f x = Inl e \<Longrightarrow> each f (ys @ x # zs) = Inl e"
proof (induction ys)
  case Nil
  then show ?case by simp
next
  case (Cons y ys)
  from Cons.prems(1)[of y] obtain r where "f y = Inr r" by auto
  moreover have "each f (ys @ x # zs) = Inl e"
    using Cons by simp
  ultimately show ?case by simp
qed

subsection \<open>Rows of the export\<close>

lemma cell_dict:
  "cell (PDict kvs) k = Inr (py_or (case map_of kvs (str k) of None \<Rightarrow> PStr [] | Some v \<Rightarrow> v) (PStr []))"
  by (simp add: cell_def then_do_def)

lemma cell_populated: "map_of kvs (str k) = Some v \<Longrightarrow> truthy v \<Longrightarrow> cell (PDict kvs) k = Inr v"
  by (simp add: cell_dict py_or_def)

lemma cell_missing: "map_of kvs (str k) = None \<Longrightarrow> cell (PDict kvs) k = Inr (PStr [])"
  by (simp add: cell_dict py_or_def)

lemma cell_null: "map_of kvs (str k) = Some PNone \<Longrightarrow> cell (PDict kvs) k = Inr (PStr [])"
  by (simp add: cell_dict py_or_def)

lemma lead_row_dict:
  "lead_row (PDict kvs) =
     Inr (map (\<lambda>k. py_or (case map_of kvs (str k) of None \<Rightarrow> PStr [] | Some v \<Rightarrow> v) (PStr [])) lead_keys)"
  unfolding lead_row_def by (rule each_all_Inr) (simp add: cell_dict)

lemma lead_row_not_dict: "\<not> is_dict l \<Longrightarrow> lead_row l = Inl (attribute_error l ''get'')"
  by (simp add: lead_row_def lead_keys_def cell_def then_do_def py_get_not_dict)

lemma lead_row_is_dict: "is_dict l \<Longrightarrow> \<exists>r. lead_row l = Inr r"
  by (cases l) (simp_all add: lead_row_dict)

lemma each_lead_row:
  "\<forall>l\<in>set ls. is_dict l \<Longrightarrow>
     \<exists>rows. each lead_row ls = Inr rows \<and> length rows = length ls \<and>
       (\<forall>i<length ls. lead_row (ls ! i) = Inr (rows ! i))"
proof (induction ls)
  case Nil
  then show ?case by simp
next
  case (Cons l ls)
  then obtain rows where rows: "each lead_row ls = Inr rows" "length rows = length ls"
      "\<forall>i<length ls. lead_row (ls ! i) = Inr (rows ! i)"
    by auto
  from Cons.prems obtain r where r: "lead_row l = Inr r"
    using lead_row_is_dict by auto
  have "\<forall>i<length (l # ls). lead_row ((l # ls) ! i) = Inr ((r # rows) ! i)"
    using r rows(3) by (auto simp: nth_Cons split: nat.splits)
  then show ?case using r rows(1,2) by auto
qed

lemma lead_row_populated:
  assumes "\<forall>k\<in>set lead_keys. \<exists>v. map_of kvs (str k) = Some v \<and> truthy v"
  shows "lead_row (PDict kvs) = Inr (map (\<lambda>k. the (map_of kvs (str k))) lead_keys)"
  unfolding lead_row_def using assms by (intro each_all_Inr) (auto simp: cell_populated)

subsection \<open>Encoding of the document\<close>

lemma csv_headers_encodable: "list_all cell_encodable csv_headers"
  by (simp add: csv_headers_def)

lemma encode_utf8_rows:
  "list_all (list_all cell_encodable) rows \<Longrightarrow>
   encode_utf8 (csv_headers # rows) = Inr (csv_headers # rows)"
  by (simp add: encode_utf8_def csv_headers_encodable)

lemma lead_row_encodable:
  assumes "\<forall>k\<in>set lead_keys. \<forall>s. py_get (PDict fs) k PNone = Inr (PStr s) \<longrightarrow> \<not> list_ex is_surrogate s"
      and "lead_row (PDict fs) = Inr row"
  shows "list_all cell_encodable row"
proof -
  have "cell_encodable (py_or (case map_of fs (str k) of None \<Rightarrow> PStr [] | Some v \<Rightarrow> v) (PStr []))"
    if "k \<in> set lead_keys" for k
  proof (cases "map_of fs (str k)")
    case None
    then show ?thesis by (simp add: py_or_def)
  next
    case (Some v)
    show ?thesis
    proof (cases v)
      case (PStr s)
      then have "\<not> list_ex is_surrogate s"
        using assms(1) that Some by simp
      then show ?thesis using Some PStr by (simp add: py_or_def)
    qed (simp_all add: Some py_or_def)
  qed
  then show ?thesis
    using assms(2) by (auto simp: lead_row_dict list_all_iff)
qed

subsection \<open>Trimming\<close>

lemma strip_empty_iff: "strip s = [] \<longleftrightarrow> (\<forall>c \<in> set s. py_isspace c)"
proof
  assume "strip s = []"
  then have "dropWhile py_isspace (rev (dropWhile py_isspace s)) = []"
    by (simp add: strip_def)
  then have "\<forall>c \<in> set (dropWhile py_isspace s). py_isspace c"
    by (simp add: dropWhile_eq_Nil_conv)
  moreover have "set s = set (takeWhile py_isspace s) \<union> set (dropWhile py_isspace s)"
    by (metis set_append takeWhile_dropWhile_id)
  ultimately show "\<forall>c \<in> set s. py_isspace c"
    by (auto dest: set_takeWhileD)
next
  assume "\<forall>c \<in> set s. py_isspace c"
  then have d: "dropWhile py_isspace s = []" by (induction s) simp_all
  show "strip s = []" unfolding strip_def d by simp
qed

lemma strip_cafe: "strip (str ''cafe'') = str ''cafe''" "strip (str ''Oslo'') = str ''Oslo''"
    "strip (str ''tok2'') = str ''tok2''" "strip [] = []" "strip (str ''  '') = []"
  by (simp_all add: strip_def py_isspace_def str_def)

lemma cafe_query: "str ''cafe'' @ str '' in '' @ str ''Oslo'' = str ''cafe in Oslo''"
  by (simp add: str_append [symmetric])

subsection \<open>Reading the request\<close>

lemma search_inputs_text:
  assumes "text_of (field_of kvs ''category'') = Some c"
      and "text_of (field_of kvs ''location'') = Some l"
      and "text_of (field_of kvs ''pageToken'') = Some t"
  shows "search_inputs (Json (PDict kvs)) = Inr (strip c, strip l, if strip t \<noteq> [] then Some (strip t) else None)"
proof -
  have ft: "field_text (PDict kvs) k = Inr (strip s)" if "text_of (field_of kvs k) = Some s" for k s
    using that by (cases "field_of kvs k") (auto simp: field_text_def then_do_def py_or_def field_of_def)
  have e: "py_or (PDict kvs) (PDict []) = PDict kvs"
    by (simp add: py_or_def)
  show ?thesis
    using assms by (simp add: search_inputs_def e ft then_do_def)
qed

lemma cafe_inputs: "search_inputs (Json (PDict cafe_fields)) = Inr (str ''cafe'', str ''Oslo'', None)"
  by (simp add: search_inputs_def cafe_fields_def py_or_def field_text_def then_do_def strip_cafe)

subsection \<open>Outbound calls and the details loop\<close>

lemma google_place_details_eq:
  "google_place_details key up pid cs = (details_at key up (length cs) pid, cs @ [details_call key pid])"
  by (simp add: google_place_details_def requests_get_json_def details_at_def details_call_def)

lemma google_text_search_once_eq:
  "google_text_search_once key up q tok cs =
     (then_do (up (length cs) (search_call key q tok)) read_search_reply, cs @ [search_call key q tok])"
  by (simp add: google_text_search_once_def requests_get_json_def search_call_def)


lemma details_loop_raises:
  "\<forall>kp \<in> set (enumerate (length cs) ys). \<exists>lo. details_at key up (fst kp) (snd kp) = Inr lo \<Longrightarrow>
   details_at key up (length cs + length ys) x = Inl e \<Longrightarrow>
   details_loop key up (ys @ x # zs) leads cs = (Inl e, cs @ map (details_call key) (ys @ [x]))"
proof (induction ys arbitrary: leads cs)
  case Nil
  then show ?case by (simp add: google_place_details_eq)
next
  case (Cons y ys)
  from Cons.prems(1) obtain lo where lo: "details_at key up (length cs) y = Inr lo"
    by auto
  have rest: "\<forall>kp \<in> set (enumerate (length (cs @ [details_call key y])) ys).
                \<exists>lo. details_at key up (fst kp) (snd kp) = Inr lo"
    using Cons.prems(1) by simp
  have fail: "details_at key up (length (cs @ [details_call key y]) + length ys) x = Inl e"
    using Cons.prems(2) by simp
  show ?case
  proof (cases lo)
    case None
    then show ?thesis
      using lo Cons.IH[OF rest fail, of leads] by (simp add: google_place_details_eq)
  next
    case (Some l)
    then show ?thesis
      using lo Cons.IH[OF rest fail, of "leads @ [l]"] by (simp add: google_place_details_eq)
  qed
qed

lemma details_loop_calls:
  "\<exists>ds. snd (details_loop key up pids leads cs) = cs @ ds \<and> (\<forall>d \<in> set ds. \<not> to_textsearch d)"
proof (induction pids arbitrary: leads cs)
  case Nil
  then show ?case by simp
next
  case (Cons pid pids)
  have nd: "\<not> to_textsearch (details_call key pid)"
    by (simp add: details_call_def textsearch_url_def details_url_def)
  show ?case
  proof (cases "details_at key up (length cs) pid")
    case (Inl e)
    then show ?thesis using nd by (simp add: google_place_details_eq)
  next
    case (Inr lo)
    obtain leads' where step: "details_loop key up (pid # pids) leads cs
        = details_loop key up pids leads' (cs @ [details_call key pid])"
      using Inr by (cases lo) (simp_all add: google_place_details_eq)
    from Cons.IH[of leads' "cs @ [details_call key pid]"] obtain ds where
      ds: "snd (details_loop key up pids leads' (cs @ [details_call key pid])) = (cs @ [details_call key pid]) @ ds"
          "\<forall>d \<in> set ds. \<not> to_textsearch d"
      by blast
    have "snd (details_loop key up (pid # pids) leads cs) = cs @ (details_call key pid # ds)"
      using step ds(1) by simp
    moreover have "\<forall>d \<in> set (details_call key pid # ds). \<not> to_textsearch d"
      using nd ds(2) by simp
    ultimately show ?thesis by blast
  qed
qed


subsection \<open>The body of the search and its exception handlers\<close>

lemma on_exception_status: "status (on_exception e) = 502 \<or> status (on_exception e) = 500"
  by (cases e) (simp add: jsonify_def)

lemma on_exception_payload: "\<exists>msg. payload (on_exception e) = JsonDoc (error_body msg)"
  by (cases e) (auto simp: jsonify_def)

lemma search_body_first_call:
  "\<exists>ds. snd (search_body key up q tok) = search_call key q tok # ds \<and> (\<forall>d \<in> set ds. \<not> to_textsearch d)"
proof (cases "then_do (up 0 (search_call key q tok)) read_search_reply")
  case (Inl e)
  then show ?thesis
    by (simp add: search_body_def google_text_search_once_eq)
next
  case (Inr r)
  obtain pids nt where r: "r = (pids, nt)" by (cases r)
  from details_loop_calls[of key up pids "[]" "[search_call key q tok]"] obtain ds where
    ds: "snd (details_loop key up pids [] [search_call key q tok]) = [search_call key q tok] @ ds"
        "\<forall>d \<in> set ds. \<not> to_textsearch d"
    by blast
  have "snd (search_body key up q tok) = snd (details_loop key up pids [] [search_call key q tok])"
    using Inr r by (simp add: search_body_def google_text_search_once_eq split: prod.splits sum.splits)
  then show ?thesis using ds by simp
qed

lemma search_body_status:
  "fst (search_body key up q tok) = Inr r \<Longrightarrow> status r = 200"
  by (auto simp: search_body_def jsonify_def split: prod.splits sum.splits)

lemma search_body_search_raises:
  "then_do (up 0 (search_call key q tok)) read_search_reply = Inl e \<Longrightarrow>
   search_body key up q tok = (Inl e, [search_call key q tok])"
  by (simp add: search_body_def google_text_search_once_eq)


lemma search_body_details_raise:
  assumes "up 0 (search_call key q tok) = Inr data"
      and "read_search_reply data = Inr (ys @ x # zs, nt)"
      and "\<forall>kp \<in> set (enumerate 1 ys). \<exists>lo. details_at key up (fst kp) (snd kp) = Inr lo"
      and "details_at key up (Suc (length ys)) x = Inl e"
  shows "search_body key up q tok = (Inl e, search_call key q tok # map (details_call key) (ys @ [x]))"
proof -
  have "details_loop key up (ys @ x # zs) [] [search_call key q tok] =
      (Inl e, [search_call key q tok] @ map (details_call key) (ys @ [x]))"
    using assms(3,4) by (intro details_loop_raises) simp_all
  then show ?thesis
    using assms(1,2) by (simp add: search_body_def google_text_search_once_eq then_do_def)
qed

lemma api_search_runs:
  assumes "search_inputs rb = Inr (c, l, tok)" and "\<not> ((c = [] \<or> l = []) \<and> tok = None)"
  shows "api_search key up rb =
     (case search_body key up (c @ str '' in '' @ l) tok of
        (Inl e, cs) \<Rightarrow> (Inr (on_exception e), cs)
      | (Inr resp, cs) \<Rightarrow> (Inr resp, cs))"
  using assms by (auto simp: api_search_def)

lemma api_search_rejects:
  assumes "search_inputs rb = Inr (c, l, tok)" and "(c = [] \<or> l = []) \<and> tok = None"
  shows "api_search key up rb =
     (Inr (jsonify 400 (error_body (str ''category and location are required''))), [])"
  using assms by (simp add: api_search_def)

lemma api_search_runs_status:
  assumes "search_inputs rb = Inr (c, l, tok)" and "\<not> ((c = [] \<or> l = []) \<and> tok = None)"
  shows "\<exists>r. fst (api_search key up rb) = Inr r \<and> status r \<noteq> 400"
proof (cases "search_body key up (c @ str '' in '' @ l) tok")
  case (Pair res cs)
  show ?thesis
  proof (cases res)
    case (Inl e)
    then show ?thesis
      using Pair api_search_runs[OF assms, of key up] on_exception_status[of e] by auto
  next
    case (Inr r)
    then have "status r = 200"
      using Pair search_body_status[of key up "c @ str '' in '' @ l" tok r] by simp
    then show ?thesis
      using Pair Inr api_search_runs[OF assms, of key up] by simp
  qed
qed

lemma api_search_runs_calls:
  assumes "search_inputs rb = Inr (c, l, tok)" and "\<not> ((c = [] \<or> l = []) \<and> tok = None)"
  shows "snd (api_search key up rb) = snd (search_body key up (c @ str '' in '' @ l) tok)"
  using api_search_runs[OF assms, of key up] by (auto split: prod.splits sum.splits)

text \<open>
  A search call that raises: the handler answers through its exception clauses, with no
  lead and no details call.
\<close>

lemma api_search_search_raises:
  assumes "search_inputs rb = Inr (c, l, tok)" and "\<not> ((c = [] \<or> l = []) \<and> tok = None)"
      and "up 0 (search_call key (c @ str '' in '' @ l) tok) = Inl e"
  shows "api_search key up rb = (Inr (on_exception e), [search_call key (c @ str '' in '' @ l) tok])"
  using api_search_runs[OF assms(1,2), of key up]
    search_body_search_raises[of up key "c @ str '' in '' @ l" tok e] assms(3)
  by (simp add: then_do_def)

subsection \<open>The identifiers of a search reply\<close>





subsection \<open>The sample upstreams\<close>

lemma three_ids_read:
  "read_search_reply three_ids = Inr ([PStr (str ''id1''), PStr (str ''id2''), PStr (str ''id3'')], PStr (str ''tok2''))"
  by (simp add: read_search_reply_def three_ids_def then_do_def)

lemma place_reply_read: "read_details_reply (place_reply i) = Inr (Some (lead_N i))"
  by (simp add: read_details_reply_def place_reply_def make_lead_def location_of_def then_do_def
      py_or_def lead_N_def)

lemma not_found_read: "read_details_reply (PDict [(str ''status'', PStr (str ''NOT_FOUND''))]) = Inr None"
  by (simp add: read_details_reply_def then_do_def)


lemma third_fails_details:
  "details_at key up_third_fails (Suc 0) p = Inr (Some (lead_N ''id1''))"
  "details_at key up_third_fails 2 p = Inr None"
  "details_at key up_third_fails 3 p = Inl (Exc ConnectionError (str ''Connection aborted.''))"
  by (simp_all add: details_at_def up_third_fails_def up_second_missing_def then_do_def
      place_reply_read not_found_read)

section \<open>Properties of the search\<close>

text \<open>
  C1. Claimed: when the upstream search call fails with a transport error such as a
  timeout, the search answers HTTP 502 with the cause, returns no lead and attempts no
  details call. The handler answers 502 only from its \<^verbatim>\<open>except requests.HTTPError\<close> clause,
  and a timeout is not an \<^verbatim>\<open>HTTPError\<close>: it reaches \<^verbatim>\<open>except Exception\<close>. On a fresh
  search for cafes in Oslo whose search call times out, the answer is HTTP 500 with the
  cause as message; there is no lead and the search call is the only outbound call.
\<close>

theorem search_timeout_is_internal_error:
  "api_search (PStr (str ''K'')) up_timeout (Json (PDict cafe_fields)) =
     (Inr (jsonify 500 (error_body (str ''Read timed out.''))),
      [Get textsearch_url [(''key'', PStr (str ''K'')), (''query'', PStr (str ''cafe in Oslo''))]])"
  by (simp add: api_search_def cafe_inputs search_body_def google_text_search_once_eq
      up_timeout_def then_do_def search_call_def search_params_def cafe_query)



text \<open>
  C4. For a request whose \<^verbatim>\<open>category\<close>, \<^verbatim>\<open>location\<close> and \<^verbatim>\<open>pageToken\<close> are strings (or
  missing, or null), the search answers HTTP 400 exactly when the token is empty or
  whitespace only and the trimmed category or the trimmed location is empty; it makes
  no outbound call in exactly that case.
\<close>

theorem search_invalid_request_iff:
  assumes "text_of (field_of kvs ''category'') = Some c"
      and "text_of (field_of kvs ''location'') = Some l"
      and "text_of (field_of kvs ''pageToken'') = Some t"
  shows "((\<exists>r. fst (api_search key up (Json (PDict kvs))) = Inr r \<and> status r = 400)
            \<longleftrightarrow> (\<forall>ch \<in> set t. py_isspace ch) \<and> (strip c = [] \<or> strip l = []))
       \<and> (snd (api_search key up (Json (PDict kvs))) = []
            \<longleftrightarrow> (\<forall>ch \<in> set t. py_isspace ch) \<and> (strip c = [] \<or> strip l = []))
       \<and> ((\<forall>ch \<in> set t. py_isspace ch) \<and> (strip c = [] \<or> strip l = []) \<longrightarrow>
            api_search key up (Json (PDict kvs)) =
              (Inr (jsonify 400 (error_body (str ''category and location are required''))), []))"
proof -
  let ?tok = "if strip t \<noteq> [] then Some (strip t) else None"
  let ?cond = "(\<forall>ch \<in> set t. py_isspace ch) \<and> (strip c = [] \<or> strip l = [])"
  have inputs: "search_inputs (Json (PDict kvs)) = Inr (strip c, strip l, ?tok)"
    using assms by (rule search_inputs_text)
  have cond: "?cond \<longleftrightarrow> (strip c = [] \<or> strip l = []) \<and> ?tok = None"
    by (auto simp: strip_empty_iff)
  show ?thesis
  proof (cases ?cond)
    case True
    then have "api_search key up (Json (PDict kvs)) =
        (Inr (jsonify 400 (error_body (str ''category and location are required''))), [])"
      using api_search_rejects[OF inputs] cond by blast
    then show ?thesis using True by (simp add: jsonify_def)
  next
    case False
    then have run: "\<not> ((strip c = [] \<or> strip l = []) \<and> ?tok = None)"
      using cond by blast
    from api_search_runs_status[OF inputs run, of key up]
    have "\<not> (\<exists>r. fst (api_search key up (Json (PDict kvs))) = Inr r \<and> status r = 400)"
      by auto
    moreover have "snd (api_search key up (Json (PDict kvs))) \<noteq> []"
      using api_search_runs_calls[OF inputs run, of key up]
        search_body_first_call[of key up "strip c @ str '' in '' @ strip l" ?tok] by auto
    ultimately show ?thesis using False by blast
  qed
qed

theorem search_invalid_request_iff_witness:
  "api_search (PStr (str ''K'')) up_timeout
      (Json (PDict [(str ''category'', PStr (str ''  '')), (str ''location'', PStr (str ''Oslo'')), (str ''pageToken'', PStr (str ''  ''))])) =
     (Inr (jsonify 400 (error_body (str ''category and location are required''))), [])
   \<and> snd (api_search (PStr (str ''K'')) up_timeout (Json (PDict cafe_fields))) \<noteq> []"
proof -
  let ?blank = "[(str ''category'', PStr (str ''  '')), (str ''location'', PStr (str ''Oslo'')), (str ''pageToken'', PStr (str ''  ''))]"
  have sp: "\<forall>ch \<in> set (str ''  ''). py_isspace ch" "\<forall>ch \<in> set []. py_isspace ch"
    by (simp_all add: py_isspace_def str_def)
  have "api_search (PStr (str ''K'')) up_timeout (Json (PDict ?blank)) =
     (Inr (jsonify 400 (error_body (str ''category and location are required''))), [])"
    using search_invalid_request_iff[of ?blank "str ''  ''" "str ''Oslo''" "str ''  ''" "PStr (str ''K'')" up_timeout] sp
    by (simp add: field_of_def strip_cafe)
  moreover have "snd (api_search (PStr (str ''K'')) up_timeout (Json (PDict cafe_fields))) \<noteq> []"
    using search_invalid_request_iff[of cafe_fields "str ''cafe''" "str ''Oslo''" "[]" "PStr (str ''K'')" up_timeout] sp
    by (simp add: field_of_def cafe_fields_def strip_cafe)
  ultimately show ?thesis by simp
qed

text \<open>
  C5. A fresh search with a category and a location sends the search endpoint one call,
  whose parameters are the credential and \<^verbatim>\<open>query\<close>, the trimmed category and location
  joined by \<^verbatim>\<open>" in "\<close>, and no \<^verbatim>\<open>pagetoken\<close>. A search carrying a continuation token sends
  it one call, whose parameters are the credential and \<^verbatim>\<open>pagetoken\<close>, and no \<^verbatim>\<open>query\<close>.
\<close>

theorem search_sends_query_or_token:
  assumes "text_of (field_of kvs ''category'') = Some c"
      and "text_of (field_of kvs ''location'') = Some l"
      and "text_of (field_of kvs ''pageToken'') = Some t"
  shows "((\<forall>ch \<in> set t. py_isspace ch) \<and> strip c \<noteq> [] \<and> strip l \<noteq> [] \<longrightarrow>
            filter to_textsearch (snd (api_search key up (Json (PDict kvs)))) =
              [Get textsearch_url [(''key'', key), (''query'', PStr (strip c @ str '' in '' @ strip l))]])
       \<and> (\<not> (\<forall>ch \<in> set t. py_isspace ch) \<longrightarrow>
            filter to_textsearch (snd (api_search key up (Json (PDict kvs)))) =
              [Get textsearch_url [(''key'', key), (''pagetoken'', PStr (strip t))]])"
proof -
  let ?tok = "if strip t \<noteq> [] then Some (strip t) else None"
  let ?q = "strip c @ str '' in '' @ strip l"
  have inputs: "search_inputs (Json (PDict kvs)) = Inr (strip c, strip l, ?tok)"
    using assms by (rule search_inputs_text)
  have sent: "filter to_textsearch (snd (api_search key up (Json (PDict kvs)))) = [search_call key ?q ?tok]"
    if run: "\<not> ((strip c = [] \<or> strip l = []) \<and> ?tok = None)"
  proof -
    from search_body_first_call[of key up ?q ?tok] obtain ds where
      ds: "snd (search_body key up ?q ?tok) = search_call key ?q ?tok # ds"
          "\<forall>d \<in> set ds. \<not> to_textsearch d"
      by blast
    have "filter to_textsearch ds = []"
      using ds(2) by (simp add: filter_empty_conv)
    then show ?thesis
      using api_search_runs_calls[OF inputs run, of key up] ds(1)
      by (simp add: search_call_def)
  qed
  have fresh: "search_call key ?q ?tok = Get textsearch_url [(''key'', key), (''query'', PStr ?q)]"
    if "\<forall>ch \<in> set t. py_isspace ch"
    using that by (simp add: search_call_def search_params_def strip_empty_iff)
  have paged: "search_call key ?q ?tok = Get textsearch_url [(''key'', key), (''pagetoken'', PStr (strip t))]"
    if "\<not> (\<forall>ch \<in> set t. py_isspace ch)"
    using that by (simp add: search_call_def search_params_def strip_empty_iff)
  show ?thesis
    using sent fresh paged by (auto simp: strip_empty_iff)
qed

theorem search_sends_query_or_token_witness:
  "filter to_textsearch (snd (api_search (PStr (str ''K'')) up_second_missing (Json (PDict cafe_fields)))) =
     [Get textsearch_url [(''key'', PStr (str ''K'')), (''query'', PStr (str ''cafe in Oslo''))]]
   \<and> filter to_textsearch (snd (api_search (PStr (str ''K'')) up_second_missing (Json (PDict next_page_fields)))) =
     [Get textsearch_url [(''key'', PStr (str ''K'')), (''pagetoken'', PStr (str ''tok2''))]]"
proof -
  have sp: "\<forall>ch \<in> set []. py_isspace ch" "\<not> (\<forall>ch \<in> set (str ''tok2''). py_isspace ch)"
    by (simp_all add: py_isspace_def str_def)
  have "filter to_textsearch (snd (api_search (PStr (str ''K'')) up_second_missing (Json (PDict cafe_fields)))) =
     [Get textsearch_url [(''key'', PStr (str ''K'')), (''query'', PStr (str ''cafe in Oslo''))]]"
    using search_sends_query_or_token[of cafe_fields "str ''cafe''" "str ''Oslo''" "[]" "PStr (str ''K'')" up_second_missing] sp
    by (simp add: field_of_def cafe_fields_def strip_cafe cafe_query)
  moreover have "filter to_textsearch (snd (api_search (PStr (str ''K'')) up_second_missing (Json (PDict next_page_fields)))) =
     [Get textsearch_url [(''key'', PStr (str ''K'')), (''pagetoken'', PStr (str ''tok2''))]]"
    using search_sends_query_or_token[of next_page_fields "[]" "[]" "str ''tok2''" "PStr (str ''K'')" up_second_missing] sp
    by (simp add: field_of_def next_page_fields_def strip_cafe)
  ultimately show ?thesis by simp
qed

text \<open>
  C6. When a details lookup raises after earlier identifiers were looked up, whatever
  leads they gave, the answer of the search is the error response alone: status 502 or
  500 and a JSON object holding only \<^verbatim>\<open>error\<close>.
\<close>

theorem search_failure_returns_no_leads:
  assumes "search_inputs rb = Inr (c, l, tok)"
      and "\<not> ((c = [] \<or> l = []) \<and> tok = None)"
      and "up 0 (search_call key (c @ str '' in '' @ l) tok) = Inr data"
      and "read_search_reply data = Inr (ys @ x # zs, nt)"
      and "\<forall>kp \<in> set (enumerate 1 ys). \<exists>lo. details_at key up (fst kp) (snd kp) = Inr lo"
      and "details_at key up (Suc (length ys)) x = Inl e"
  shows "fst (api_search key up rb) = Inr (on_exception e)
       \<and> (\<exists>msg. payload (on_exception e) = JsonDoc (PDict [(str ''error'', PStr msg)]))
       \<and> (status (on_exception e) = 502 \<or> status (on_exception e) = 500)"
  using api_search_runs[OF assms(1,2), of key up] search_body_details_raise[OF assms(3,4,5,6)]
    on_exception_status[of e] on_exception_payload[of e]
  by (simp add: error_body_def)

theorem search_failure_returns_no_leads_witness:
  "fst (api_search (PStr (str ''K'')) up_third_fails (Json (PDict cafe_fields))) =
     Inr (jsonify 500 (error_body (str ''Connection aborted.'')))"
proof -
  let ?ys = "[PStr (str ''id1''), PStr (str ''id2'')]"
  have e: "enumerate 1 ?ys = [(1, PStr (str ''id1'')), (2, PStr (str ''id2''))]"
    by (simp add: enumerate_eq_zip upt_conv_Cons)
  have a3: "up_third_fails 0 (search_call (PStr (str ''K'')) (str ''cafe'' @ str '' in '' @ str ''Oslo'') None) = Inr three_ids"
    by (simp add: up_third_fails_def up_second_missing_def)
  have a4: "read_search_reply three_ids = Inr (?ys @ PStr (str ''id3'') # [], PStr (str ''tok2''))"
    using three_ids_read by simp
  have a5: "\<forall>kp \<in> set (enumerate 1 ?ys). \<exists>lo. details_at (PStr (str ''K'')) up_third_fails (fst kp) (snd kp) = Inr lo"
    unfolding e by (simp add: third_fails_details)
  have a6: "details_at (PStr (str ''K'')) up_third_fails (Suc (length ?ys)) (PStr (str ''id3''))
      = Inl (Exc ConnectionError (str ''Connection aborted.''))"
    using third_fails_details(3)[of "PStr (str ''K'')" "PStr (str ''id3'')"] by (simp add: eval_nat_numeral)
  from search_failure_returns_no_leads[OF cafe_inputs _ a3 a4 a5 a6]
  show ?thesis by simp
qed

section \<open>Properties of the export\<close>

text \<open>
  C2. Claimed: a record with all nine fields populated gives a row whose cells are the
  field values in column order, and a missing or null field gives an empty cell. Each
  cell is \<^verbatim>\<open>l.get(key, "") or ""\<close>, so a populated field whose value is falsy is blanked
  too: the record below has \<^verbatim>\<open>reviewCount\<close> 0, and its Review Count cell is the empty
  string, not 0. (\<open>lead_row_populated\<close>, \<open>cell_missing\<close> and \<open>cell_null\<close> are the part of
  the claim that holds.)
\<close>

theorem export_blanks_zero_review_count:
  "api_export_csv (export_request (PList [record_no_reviews])) =
     Inr (csv_response
       [csv_headers,
        [PStr (str ''Cafe A''), PStr (str ''1 Main St''), PFloat (Finite (9 / 2)), PStr [],
         PStr (str ''+47 22 00 00 00''), PStr (str ''https://a.example''), PStr (str ''id1''),
         PFloat (Finite (599 / 10)), PFloat (Finite (107 / 10))]])"
  by (simp add: api_export_csv_def export_request_def record_no_reviews_def py_or_def
      lead_row_dict lead_keys_def encode_utf8_def csv_headers_encodable)

text \<open>
  C7. Claimed: the export emits one data row for each input record, whatever the record
  holds. The document is encoded as UTF-8 before it is returned, and a string with a
  surrogate code point has no UTF-8 encoding: for the list holding the record
  \<^verbatim>\<open>{"name": "\\ud800"}\<close> the handler ends with \<^verbatim>\<open>UnicodeEncodeError\<close> and returns no document.
\<close>

theorem export_surrogate_gives_no_document:
  "api_export_csv (export_request (PList [record_surrogate])) =
     Inl (Exc UnicodeEncodeError (str ''surrogates not allowed''))"
  by (simp add: api_export_csv_def export_request_def record_surrogate_def py_or_def
      lead_row_dict lead_keys_def encode_utf8_def is_surrogate_def)

text \<open>
  C7, amended. For a list of records in which no string of the nine fields holds a
  surrogate code point, the export answers the header row followed by one row for each
  record, in the order of the input: row \<open>i\<close> is built from record \<open>i\<close>, whatever fields
  it has. For the empty list the document is the header row alone.
\<close>

theorem export_one_row_per_record:
  assumes "map_of kvs (str ''leads'') = Some (PList ls)"
      and "\<forall>l\<in>set ls. is_dict l"
      and "\<forall>l\<in>set ls. \<forall>k\<in>set lead_keys. \<forall>s.
             py_get l k PNone = Inr (PStr s) \<longrightarrow> \<not> list_ex is_surrogate s"
  shows "\<exists>rows. api_export_csv (Json (PDict kvs)) = Inr (csv_response (csv_headers # rows))
           \<and> length rows = length ls
           \<and> (\<forall>i<length ls. lead_row (ls ! i) = Inr (rows ! i))
           \<and> (ls = [] \<longrightarrow> rows = [])"
proof -
  from each_lead_row[OF assms(2)] obtain rows where rows: "each lead_row ls = Inr rows"
      "length rows = length ls" "\<forall>i<length ls. lead_row (ls ! i) = Inr (rows ! i)"
    by blast
  have "list_all cell_encodable (rows ! i)" if "i < length rows" for i
  proof -
    from that rows(2) have i: "i < length ls" by simp
    then have mem: "ls ! i \<in> set ls" by simp
    then have "is_dict (ls ! i)"
      using assms(2) by blast
    then obtain fs where fs: "ls ! i = PDict fs"
      by (cases "ls ! i") simp_all
    have "\<forall>k\<in>set lead_keys. \<forall>s. py_get (PDict fs) k PNone = Inr (PStr s) \<longrightarrow> \<not> list_ex is_surrogate s"
      using assms(3) mem fs by metis
    moreover have "lead_row (PDict fs) = Inr (rows ! i)"
      using rows(3)[rule_format, OF i] fs by simp
    ultimately show ?thesis by (rule lead_row_encodable)
  qed
  then have "list_all (list_all cell_encodable) rows"
    by (simp add: list_all_length)
  then have enc: "encode_utf8 (csv_headers # rows) = Inr (csv_headers # rows)"
    by (rule encode_utf8_rows)
  from assms(1) have "kvs \<noteq> []" by auto
  then have "api_export_csv (Json (PDict kvs)) = Inr (csv_response (csv_headers # rows))"
    using assms(1) rows(1) enc by (simp add: api_export_csv_def py_or_def)
  moreover have "ls = [] \<longrightarrow> rows = []"
    using rows(2) by auto
  ultimately show ?thesis using rows(2,3) by blast
qed

theorem export_one_row_per_record_witness:
  "\<exists>rows. api_export_csv (export_request (PList [record_full, PDict [], record_full]))
             = Inr (csv_response (csv_headers # rows))
         \<and> length rows = 3
         \<and> lead_row record_full = Inr (rows ! 0)
         \<and> lead_row (PDict []) = Inr (rows ! 1)
         \<and> lead_row record_full = Inr (rows ! 2)"
proof -
  let ?ls = "[record_full, PDict [], record_full]"
  have dicts: "\<forall>l\<in>set ?ls. is_dict l"
    by (simp add: record_full_def)
  have texts: "\<forall>l\<in>set ?ls. \<forall>k\<in>set lead_keys. \<forall>s.
      py_get l k PNone = Inr (PStr s) \<longrightarrow> \<not> list_ex is_surrogate s"
    by (auto simp: record_full_def lead_keys_def)
  from export_one_row_per_record[of "[(str ''leads'', PList ?ls)]" ?ls, OF _ dicts texts]
  obtain rows where r: "api_export_csv (Json (PDict [(str ''leads'', PList ?ls)])) = Inr (csv_response (csv_headers # rows))"
    "length rows = length ?ls" "\<forall>i<length ?ls. lead_row (?ls ! i) = Inr (rows ! i)"
    by auto
  have "lead_row record_full = Inr (rows ! 0)" "lead_row (PDict []) = Inr (rows ! 1)"
      "lead_row record_full = Inr (rows ! 2)"
    using r(3)[rule_format, of 0] r(3)[rule_format, of 1] r(3)[rule_format, of 2] by simp_all
  then show ?thesis
    using r(1,2) by (auto simp: export_request_def)
qed

text \<open>
  When \<^verbatim>\<open>data.get("leads")\<close> returns and its value is not a list (null, an object, a
  scalar, or no such field in the body), the export answers HTTP 400 with the message
  \<^verbatim>\<open>No leads provided\<close>, and no CSV.
\<close>

lemma export_rejects_non_list:
  assumes "py_get (py_or (get_json_silent rb) (PDict [])) ''leads'' PNone = Inr v"
      and "\<not> is_list v"
  shows "api_export_csv rb = Inr (jsonify 400 (error_body (str ''No leads provided'')))"
  using assms by (cases v) (simp_all add: api_export_csv_def)

text \<open>
  C8. Claimed: every input that is not a list, a request body with no \<^verbatim>\<open>leads\<close> field
  included, is answered with HTTP 400 and the message \<^verbatim>\<open>No leads provided\<close>. The handler
  reads \<^verbatim>\<open>leads\<close> with \<^verbatim>\<open>data.get\<close>, where \<^verbatim>\<open>data\<close> is the decoded body, or \<^verbatim>\<open>{}\<close> when that
  is falsy. A body that is a truthy value other than an object (the number 7, or the
  list of records posted without its envelope) has no \<^verbatim>\<open>leads\<close> field and is not
  replaced: \<^verbatim>\<open>data.get\<close> raises \<^verbatim>\<open>AttributeError\<close> and the handler gives no 400 answer. The
  falsy bodies 0 and \<^verbatim>\<open>[]\<close> are answered with 400.
\<close>

theorem export_non_object_body_raises:
  "api_export_csv (Json (PInt 7)) = Inl (attribute_error (PInt 7) ''get'')
   \<and> api_export_csv (Json (PList [record_full])) = Inl (attribute_error (PList [record_full]) ''get'')
   \<and> api_export_csv (Json (PInt 0)) = Inr (jsonify 400 (error_body (str ''No leads provided'')))
   \<and> api_export_csv (Json (PList [])) = Inr (jsonify 400 (error_body (str ''No leads provided'')))"
  by (simp add: api_export_csv_def py_or_def)

text \<open>
  C9. When the list holds an element that is not a mapping, building the row of such an
  element raises \<^verbatim>\<open>AttributeError\<close>, and the export ends with that exception for the
  first such element: no CSV document is returned.
\<close>

theorem export_raises_on_non_mapping_element:
  assumes "map_of kvs (str ''leads'') = Some (PList ls)" and "x \<in> set ls" and "\<not> is_dict x"
  shows "lead_row x = Inl (attribute_error x ''get'')
       \<and> (\<exists>y\<in>set ls. \<not> is_dict y \<and> api_export_csv (Json (PDict kvs)) = Inl (attribute_error y ''get''))"
proof -
  from assms(2,3) have "\<exists>x\<in>set ls. \<not> is_dict x" by blast
  then obtain ys y zs where split: "ls = ys @ y # zs" "\<not> is_dict y" "\<forall>l\<in>set ys. \<not> \<not> is_dict l"
    using split_list_first_prop[of ls "\<lambda>l. \<not> is_dict l"] by blast
  have "each lead_row (ys @ y # zs) = Inl (attribute_error y ''get'')"
    using split(2,3) by (intro each_first_Inl) (auto simp: lead_row_not_dict lead_row_is_dict)
  moreover from assms(1) have "kvs \<noteq> []" by auto
  ultimately have "api_export_csv (Json (PDict kvs)) = Inl (attribute_error y ''get'')"
    using assms(1) split(1) by (simp add: api_export_csv_def py_or_def)
  moreover have "y \<in> set ls" using split(1) by simp
  ultimately show ?thesis
    using split(2) assms(3) lead_row_not_dict by blast
qed

theorem export_raises_on_non_mapping_element_witness:
  "lead_row (PStr (str ''abc'')) = Inl (attribute_error (PStr (str ''abc'')) ''get'')
   \<and> (\<exists>e. api_export_csv (export_request (PList [record_full, PStr (str ''abc'')])) = Inl e)"
  using export_raises_on_non_mapping_element[of "[(str ''leads'', PList [record_full, PStr (str ''abc'')])]"
      "[record_full, PStr (str ''abc'')]" "PStr (str ''abc'')"]
  by (auto simp: export_request_def)

section \<open>Properties of both handlers\<close>

text \<open>
  C10. A request with no body, or with a body that is not JSON, is read as the empty
  object; the search and the export both answer it with their HTTP 400 response.
\<close>

theorem absent_or_invalid_body_is_invalid_request:
  assumes "rb = NoBody \<or> rb = NotJson"
  shows "py_or (get_json_silent rb) (PDict []) = PDict []
       \<and> api_search key up rb =
           (Inr (jsonify 400 (error_body (str ''category and location are required''))), [])
       \<and> api_export_csv rb = Inr (jsonify 400 (error_body (str ''No leads provided'')))"
  using assms
  by (auto simp: api_search_def search_inputs_def field_text_def then_do_def py_or_def
      strip_def api_export_csv_def)

theorem absent_or_invalid_body_is_invalid_request_witness:
  "api_search (PStr (str ''K'')) up_second_missing NotJson =
     (Inr (jsonify 400 (error_body (str ''category and location are required''))), [])
   \<and> api_export_csv NotJson = Inr (jsonify 400 (error_body (str ''No leads provided'')))
   \<and> api_search (PStr (str ''K'')) up_second_missing NoBody =
     (Inr (jsonify 400 (error_body (str ''category and location are required''))), [])
   \<and> api_export_csv NoBody = Inr (jsonify 400 (error_body (str ''No leads provided'')))"
  using absent_or_invalid_body_is_invalid_request[of NotJson "PStr (str ''K'')" up_second_missing]
    absent_or_invalid_body_is_invalid_request[of NoBody "PStr (str ''K'')" up_second_missing]
  by simp

end
